theory Spec2Isabelle
  imports Complex_Main "HOL-Library.Sublist"
begin

section \<open>The badge generator of NimLisp (scripts/generate\_badges.py)\<close>

text \<open>
  The script shells out to the Nim compiler, to Testament and to lcov, reads their text
  and a few files, and writes badge URLs. Every function below takes what the source
  reads from the outside world (files found, file contents, exit codes, captured output)
  as an argument and returns what the source returns or writes.

  A Python \<open>str\<close> is a \<^typ>\<open>string\<close>; one \<^typ>\<open>char\<close> stands for one code point, so the
  development covers text whose code points are below 256. The \<open>print\<close> calls of the
  source have no effect on any value and are left out.
\<close>

subsection \<open>String operations of Python used by the script\<close>

text \<open>
  \<open>s.replace(old, new)\<close> for a one-character \<open>old\<close>, the only way the script calls it:
  every occurrence of the character is replaced, left to right.
\<close>

fun replace :: "char \<Rightarrow> string \<Rightarrow> string \<Rightarrow> string" where
  "replace old new [] = []"
| "replace old new (c # cs) = (if c = old then new @ replace old new cs else c # replace old new cs)"

text \<open>
  \<open>s.split(sep)\<close> for a one-character separator: the pieces between the separators,
  so the empty string gives one empty piece and a trailing separator a last empty piece.
\<close>

fun str_split :: "char \<Rightarrow> string \<Rightarrow> string list" where
  "str_split sep [] = [[]]"
| "str_split sep (c # cs) =
     (if c = sep then [] # str_split sep cs
      else (case str_split sep cs of [] \<Rightarrow> [[c]] | l # ls \<Rightarrow> (c # l) # ls))"

text \<open>
  \<open>x in s\<close> on strings is \<^term>\<open>sublist x s\<close>: \<open>x\<close> occurs in \<open>s\<close> as a contiguous piece.
  \<open>s.startswith(x)\<close> is \<^term>\<open>prefix x s\<close>. \<open>str(n)\<close> of a count is its decimal numeral.
\<close>

definition digit :: "nat \<Rightarrow> char" where
  "digit d = ''0123456789'' ! d"

fun str :: "nat \<Rightarrow> string" where
  "str n = (if n < 10 then [digit n] else str (n div 10) @ [digit (n mod 10)])"

declare str.simps [simp del]

text \<open>What \<open>Path.read_text\<close> raises in place of returning the content.\<close>

datatype py_error = OSError | UnicodeDecodeError

type_synonym read_text = "py_error + string"

subsection \<open>create\_badge\_url\<close>

text \<open>
  Lines 245 and 246 apply the same two replacements to \<open>label\<close> and to \<open>message\<close>:
  \<open>x.replace("%", "%25").replace(" ", "%20")\<close>.
\<close>

definition url_escape :: "string \<Rightarrow> string" where
  "url_escape x = replace (CHR '' '') ''%20'' (replace (CHR ''%'') ''%25'' x)"

definition create_badge_url :: "string \<Rightarrow> string \<Rightarrow> string \<Rightarrow> string" where
  "create_badge_url label message color =
     (let label = url_escape label;
          message = url_escape message
      in ''https://img.shields.io/badge/'' @ label @ ''-'' @ message @ ''-'' @ color @ ''.svg'')"

text \<open>The escaping of one character, had both replacements been done in a single pass.\<close>

definition escape_char :: "char \<Rightarrow> string" where
  "escape_char c = (if c = CHR ''%'' then ''%25'' else if c = CHR '' '' then ''%20'' else [c])"

definition plain :: "string \<Rightarrow> bool" where
  "plain x = (CHR ''%'' \<notin> set x \<and> CHR '' '' \<notin> set x)"

subsection \<open>run\_tests\<close>

text \<open>
  \<open>re.sub(r'\x1b\[[0-9;]*m', '', line)\<close>. The pattern is an escape character, an opening
  bracket, the longest run of digits and semicolons, and the letter m. The run is
  greedy, and giving characters back never helps, since the character after a shorter
  run is a digit or a semicolon. \<open>match_sgr s\<close> is the text after a match at the start
  of \<open>s\<close>; \<open>strip_ansi\<close> deletes every match, leftmost first.
\<close>

definition sgr_param :: "char \<Rightarrow> bool" where
  "sgr_param c = (c \<in> set ''0123456789;'')"

definition match_sgr :: "string \<Rightarrow> string option" where
  "match_sgr s =
     (case s of
        e # b # t \<Rightarrow>
          if e = CHR 0x1B \<and> b = CHR ''[''
          then (case dropWhile sgr_param t of
                  [] \<Rightarrow> None
                | m # r \<Rightarrow> if m = CHR ''m'' then Some r else None)
          else None
      | _ \<Rightarrow> None)"

lemma match_sgr_shorter: "match_sgr s = Some r \<Longrightarrow> length r < length s"
proof -
  assume m: "match_sgr s = Some r"
  then obtain e b t where s: "s = e # b # t" and d: "dropWhile sgr_param t = CHR ''m'' # r"
    by (auto simp: match_sgr_def split: list.splits if_splits)
  have "length (dropWhile sgr_param t) \<le> length t"
    by (rule length_dropWhile_le)
  with s d show ?thesis by simp
qed

function strip_ansi :: "string \<Rightarrow> string" where
  "strip_ansi [] = []"
| "strip_ansi (c # cs) =
     (case match_sgr (c # cs) of
        Some r \<Rightarrow> strip_ansi r
      | None \<Rightarrow> c # strip_ansi cs)"
  by pat_completeness auto
termination
  by (relation "measure length") (auto dest: match_sgr_shorter)

text \<open>
  \<open>re.findall(r'^block:', content, re.MULTILINE)\<close>: with \<open>MULTILINE\<close> the anchor stands
  at the start of the text and after every newline, so the matches are the lines that
  start with \<open>block:\<close>, one match each.
\<close>

definition findall_block :: "string \<Rightarrow> string list" where
  "findall_block content =
     map (\<lambda>_. ''block:'') (filter (prefix ''block:'') (str_split CHR ''\<newline>'' content))"

record test_results =
  status :: string
  passed :: nat
  failed :: nat
  total :: nat
  test_functions :: nat

text \<open>The body of the loop over the output lines (lines 78 to 84), on the two counters.\<close>

definition count_line :: "string \<Rightarrow> nat \<times> nat \<Rightarrow> nat \<times> nat" where
  "count_line line = (\<lambda>(passed_files, failed_files).
     let clean_line = strip_ansi line in
     if sublist ''PASS:'' clean_line \<and> sublist ''.nim c'' clean_line
     then (passed_files + 1, failed_files)
     else if sublist ''FAIL:'' clean_line
     then (passed_files, failed_files + 1)
     else (passed_files, failed_files))"

text \<open>
  The loop over \<open>Path("tests").glob("t_*.nim")\<close> (lines 87 to 94): \<open>test_files\<close> holds, in
  glob order, what \<open>read_text\<close> gives for each file; a file that cannot be read is skipped.
\<close>

definition count_test_blocks :: "read_text list \<Rightarrow> nat" where
  "count_test_blocks test_files =
     fold (\<lambda>test_file test_blocks.
             case test_file of
               Inl _ \<Rightarrow> test_blocks
             | Inr content \<Rightarrow> test_blocks + length (findall_block content))
          test_files 0"

text \<open>
  \<open>run_tests\<close>: \<open>testament\<close> is what \<open>run_command\<close> returns for the Testament call
  (exit code, stdout, stderr).
\<close>

definition run_tests :: "int \<times> string \<times> string \<Rightarrow> read_text list \<Rightarrow> test_results" where
  "run_tests testament test_files =
     (let (exit_code, stdout, stderr) = testament;
          test_results = \<lparr>status = ''no tests'', passed = 0, failed = 0, total = 0,
                          test_functions = 0\<rparr>
      in if exit_code = 0
         then (let lines = str_split CHR ''\<newline>'' stdout;
                   (passed_files, failed_files) = fold count_line lines (0, 0);
                   test_blocks = count_test_blocks test_files
               in if passed_files > 0 \<and> failed_files = 0
                  then test_results\<lparr>total := test_blocks, passed := test_blocks, failed := 0,
                                      test_functions := test_blocks, status := ''passing''\<rparr>
                  else if failed_files > 0
                  then test_results\<lparr>total := test_blocks, passed := 0, failed := test_blocks,
                                      test_functions := test_blocks, status := ''failing''\<rparr>
                  else test_results)
         else test_results\<lparr>status := ''failing''\<rparr>)"

text \<open>
  The lines of the runner's output as the loop sees them, and the two kinds of line it
  looks for: a pass line bears the pass marker and the compile-unit marker, a fail-marker
  line bears the fail marker.
\<close>

definition clean_lines :: "string \<Rightarrow> string list" where
  "clean_lines stdout = map strip_ansi (str_split CHR ''\<newline>'' stdout)"

definition pass_line :: "string \<Rightarrow> bool" where
  "pass_line l = (sublist ''PASS:'' l \<and> sublist ''.nim c'' l)"

definition fail_marker :: "string \<Rightarrow> bool" where
  "fail_marker l = sublist ''FAIL:'' l"

subsection \<open>generate\_badges: the tests badge (lines 268 to 279)\<close>

definition test_message :: "test_results \<Rightarrow> string" where
  "test_message test_results =
     (if total test_results > 0
      then (if status test_results = ''failing''
            then str (total test_results) @ '' tests ('' @ str (failed test_results) @ '' failed)''
            else str (total test_results) @ '' tests'')
      else ''no tests'')"

definition test_color :: "test_results \<Rightarrow> string" where
  "test_color test_results =
     (if status test_results = ''passing'' then ''brightgreen''
      else if status test_results = ''failing'' then ''red''
      else ''lightgrey'')"

definition tests_badge :: "test_results \<Rightarrow> string" where
  "tests_badge test_results =
     create_badge_url ''tests'' (test_message test_results) (test_color test_results)"

subsection \<open>get\_project\_version\<close>

text \<open>
  \<open>re.search(r'version\s*=\s*"([^"]+)"', content)\<close>. The class \<open>\s\<close> of a \<open>str\<close> pattern
  is Unicode white space; below code point 256 these are the characters of \<open>is_space\<close>.
  \<open>match_version s\<close> is group 1 of a match at the start of \<open>s\<close>: the word, the longest run
  of white space, the equals sign, the longest run of white space, a double quote, the
  longest run of other characters, which must not be empty, and a double quote. Each run
  is greedy and giving characters back never helps, since the character that must follow
  a run is not of the run's class. \<open>search_version\<close> tries the start positions from the
  left, as \<open>re.search\<close> does.
\<close>

definition is_space :: "char \<Rightarrow> bool" where
  "is_space c = (c \<in> set [CHR 0x09, CHR 0x0A, CHR 0x0B, CHR 0x0C, CHR 0x0D, CHR 0x1C, CHR 0x1D,
                           CHR 0x1E, CHR 0x1F, CHR 0x20, CHR 0x85, CHR 0xA0])"

definition match_version :: "string \<Rightarrow> string option" where
  "match_version s =
     (if prefix ''version'' s
      then (case dropWhile is_space (drop 7 s) of
              [] \<Rightarrow> None
            | e # t \<Rightarrow>
                if e = CHR ''=''
                then (case dropWhile is_space t of
                        [] \<Rightarrow> None
                      | q # u \<Rightarrow>
                          if q = CHR 0x22
                          then (let v = takeWhile (\<lambda>c. c \<noteq> CHR 0x22) u
                                in if v \<noteq> [] \<and> dropWhile (\<lambda>c. c \<noteq> CHR 0x22) u \<noteq> []
                                   then Some v else None)
                          else None)
                else None)
      else None)"

fun search_version :: "string \<Rightarrow> string option" where
  "search_version [] = None"
| "search_version (c # cs) =
     (case match_version (c # cs) of
        Some v \<Rightarrow> Some v
      | None \<Rightarrow> search_version cs)"

text \<open>
  The body of the \<open>try\<close> (lines 22 to 29). \<open>glob\<close> is what \<open>list(Path(".").glob("*.nimble"))\<close>
  gives: an error, or for each manifest file in glob order what \<open>read_text\<close> gives for
  it. Only \<open>nimble_files[0]\<close> is read. \<open>Inl\<close> is an exception leaving the body.
\<close>

definition get_project_version_try :: "py_error + read_text list \<Rightarrow> py_error + string" where
  "get_project_version_try glob =
     (case glob of
        Inl e \<Rightarrow> Inl e
      | Inr nimble_files \<Rightarrow>
          (case nimble_files of
             [] \<Rightarrow> Inr ''0.1.0''
           | first # _ \<Rightarrow>
               (case first of
                  Inl e \<Rightarrow> Inl e
                | Inr content \<Rightarrow>
                    (case search_version content of
                       Some v \<Rightarrow> Inr v
                     | None \<Rightarrow> Inr ''0.1.0''))))"

text \<open>
  The function with its handler \<open>except Exception\<close> (lines 30 and 31), which turns every
  exception of the body into the default version.
\<close>

definition get_project_version :: "py_error + read_text list \<Rightarrow> py_error + string" where
  "get_project_version glob =
     (case get_project_version_try glob of
        Inl e \<Rightarrow> Inr ''0.1.0''
      | Inr v \<Rightarrow> Inr v)"

text \<open>
  A manifest content has a version field when it holds, somewhere, the word \<open>version\<close>,
  white space, an equals sign, white space and a non-empty text between double quotes.
  \<open>version_field s ws1 ws2 v post\<close> says that \<open>s\<close> starts with such a field, of value \<open>v\<close>.
\<close>

definition has_version_field :: "string \<Rightarrow> bool" where
  "has_version_field content =
     (\<exists>pre ws1 ws2 v post.
        content = pre @ ''version'' @ ws1 @ ''='' @ ws2 @ [CHR 0x22] @ v @ [CHR 0x22] @ post
        \<and> list_all is_space ws1 \<and> list_all is_space ws2 \<and> v \<noteq> [] \<and> CHR 0x22 \<notin> set v)"

definition version_field :: "string \<Rightarrow> string \<Rightarrow> string \<Rightarrow> string \<Rightarrow> string \<Rightarrow> bool" where
  "version_field s ws1 ws2 v post =
     (s = ''version'' @ ws1 @ ''='' @ ws2 @ [CHR 0x22] @ v @ [CHR 0x22] @ post
      \<and> list_all is_space ws1 \<and> list_all is_space ws2 \<and> v \<noteq> [] \<and> CHR 0x22 \<notin> set v)"

subsection \<open>generate\_badges: the version badge (lines 254 and 255)\<close>

definition version_badge :: "string \<Rightarrow> string" where
  "version_badge version = create_badge_url ''version'' (''v'' @ version) ''blue''"

subsection \<open>generate\_build\_status\<close>

text \<open>
  \<open>main_nim\<close> and \<open>src_main_nim\<close> say whether \<open>main.nim\<close> and \<open>src/main.nim\<close> exist;
  \<open>nim_files\<close> is \<open>str(f)\<close> for each \<open>f\<close> of \<open>list(Path(".").rglob("*.nim"))\<close>, in that
  order; \<open>run_command\<close> gives exit code, stdout and stderr of a shell command.
\<close>

definition generate_build_status ::
    "bool \<Rightarrow> bool \<Rightarrow> string list \<Rightarrow> (string \<Rightarrow> int \<times> string \<times> string) \<Rightarrow> string" where
  "generate_build_status main_nim src_main_nim nim_files run_command =
     (let checked =
            (if main_nim then Some (run_command ''nim check main.nim'')
             else if src_main_nim then Some (run_command ''nim check src/main.nim'')
             else (case nim_files of
                     [] \<Rightarrow> None
                   | first # _ \<Rightarrow>
                       if \<not> list_ex (sublist ''test'') nim_files
                       then Some (run_command (''nim check '' @ first))
                       else None))
      in case checked of
           None \<Rightarrow> ''no source''
         | Some (exit_code, _, stderr) \<Rightarrow> if exit_code = 0 then ''passing'' else ''failing'')"

subsection \<open>estimate\_coverage\_fallback\<close>

text \<open>
  The class \<open>\w\<close> of a \<open>str\<close> pattern (alphanumeric characters and the underscore) and
  \<open>str.lower\<close>, below code point 256.
\<close>

definition is_word :: "char \<Rightarrow> bool" where
  "is_word c =
     (let n = of_char c :: nat
      in (48 \<le> n \<and> n \<le> 57) \<or> (65 \<le> n \<and> n \<le> 90) \<or> n = 95 \<or> (97 \<le> n \<and> n \<le> 122)
         \<or> n \<in> set [170, 178, 179, 181, 185, 186, 188, 189, 190]
         \<or> (192 \<le> n \<and> n \<le> 214) \<or> (216 \<le> n \<and> n \<le> 246) \<or> 248 \<le> n)"

definition lower_char :: "char \<Rightarrow> char" where
  "lower_char c =
     (let n = of_char c :: nat
      in if (65 \<le> n \<and> n \<le> 90) \<or> (192 \<le> n \<and> n \<le> 222 \<and> n \<noteq> 215)
         then char_of (n + 32) else c)"

definition lower :: "string \<Rightarrow> string" where
  "lower s = map lower_char s"

text \<open>
  \<open>re.findall(r'^\s*proc\s+\w+', content, re.MULTILINE)\<close> and the same with \<open>func\<close>.
  \<open>match_decl keyword s\<close> is the text after a match that starts at \<open>s\<close>: the longest run
  of white space (newlines included), the keyword, at least one white space, at least one
  word character. \<open>count_decl keyword line_start s\<close> is the number of matches found from
  \<open>s\<close> on, leftmost first and without overlap; \<open>line_start\<close> says whether the anchor holds
  at the start of \<open>s\<close>. A match ends after a word character, so not at a line start.
\<close>

definition match_decl :: "string \<Rightarrow> string \<Rightarrow> string option" where
  "match_decl keyword s =
     (let t = dropWhile is_space s
      in if prefix keyword t
         then (case drop (length keyword) t of
                 [] \<Rightarrow> None
               | a # u \<Rightarrow>
                   if is_space a
                   then (case dropWhile is_space u of
                           [] \<Rightarrow> None
                         | w # r \<Rightarrow> if is_word w then Some (dropWhile is_word r) else None)
                   else None)
         else None)"

lemma match_decl_shorter: "match_decl keyword s = Some r \<Longrightarrow> length r < length s"
proof -
  assume m: "match_decl keyword s = Some r"
  let ?t = "dropWhile is_space s"
  from m obtain a u where au: "drop (length keyword) ?t = a # u"
    by (auto simp: match_decl_def Let_def split: if_splits list.splits)
  with m obtain w r' where wr: "dropWhile is_space u = w # r'" and r: "r = dropWhile is_word r'"
    by (auto simp: match_decl_def Let_def split: if_splits list.splits)
  have "length r \<le> length r'"
    unfolding r by (rule length_dropWhile_le)
  also have "length r' < length (dropWhile is_space u)"
    by (simp add: wr)
  also have "\<dots> \<le> length u"
    by (rule length_dropWhile_le)
  also have "\<dots> < length (drop (length keyword) ?t)"
    by (simp add: au)
  also have "\<dots> \<le> length ?t"
    by simp
  also have "\<dots> \<le> length s"
    by (rule length_dropWhile_le)
  finally show ?thesis .
qed

function count_decl :: "string \<Rightarrow> bool \<Rightarrow> string \<Rightarrow> nat" where
  "count_decl keyword line_start [] = 0"
| "count_decl keyword line_start (c # cs) =
     (case (if line_start then match_decl keyword (c # cs) else None) of
        Some r \<Rightarrow> 1 + count_decl keyword False r
      | None \<Rightarrow> count_decl keyword (c = CHR ''\<newline>'') cs)"
  by pat_completeness auto
termination
  by (relation "measure (\<lambda>(k, b, s). length s)") (auto dest: match_decl_shorter split: if_splits)

text \<open>
  One file of \<open>Path(".").rglob("*.nim")\<close>: whether it lies under \<open>tests\<close>
  (\<open>is_relative_to(Path("tests"))\<close>), its \<open>name\<close>, and what \<open>read_text\<close> gives for it.
  \<open>scan_file\<close> is the body of the loop (lines 217 to 230) on the two counters.
\<close>

record nim_file =
  under_tests :: bool
  file_name :: string
  file_text :: read_text

definition scan_file :: "nim_file \<Rightarrow> nat \<times> nat \<Rightarrow> nat \<times> nat" where
  "scan_file nim_file = (\<lambda>(src_functions, test_blocks).
     if under_tests nim_file \<and> prefix ''t_'' (file_name nim_file)
     then (case file_text nim_file of
             Inl _ \<Rightarrow> (src_functions, test_blocks)
           | Inr content \<Rightarrow> (src_functions, test_blocks + length (findall_block content)))
     else if \<not> (under_tests nim_file \<or> sublist ''test'' (lower (file_name nim_file)))
     then (case file_text nim_file of
             Inl _ \<Rightarrow> (src_functions, test_blocks)
           | Inr content \<Rightarrow>
               (src_functions + count_decl ''proc'' True content
                  + count_decl ''func'' True content, test_blocks))
     else (src_functions, test_blocks))"

text \<open>
  Lines 232 to 237 on the two counters after the loop. Python computes in double
  precision; here the arithmetic is exact, over the reals.
\<close>

definition estimated_coverage :: "nat \<Rightarrow> nat \<Rightarrow> real" where
  "estimated_coverage test_blocks src_functions =
     (if src_functions = 0 then 0.0
      else (let ratio = real test_blocks / real src_functions
            in min (ratio * 85) 95.0))"

definition estimate_coverage_fallback :: "nim_file list \<Rightarrow> real" where
  "estimate_coverage_fallback nim_files =
     (let (src_functions, test_blocks) = fold scan_file nim_files (0, 0)
      in estimated_coverage test_blocks src_functions)"

subsection \<open>generate\_badges: the color of the coverage badge (line 283)\<close>

definition coverage_color :: "real \<Rightarrow> string" where
  "coverage_color coverage =
     (if coverage \<ge> 90 then ''brightgreen'' else if coverage \<ge> 70 then ''yellow'' else ''red'')"

subsection \<open>update\_readme\<close>

text \<open>
  The four patterns are \<open>\[!\[\<close>\<^emph>\<open>label\<close>\<open>\].*?\]\([^)]*\)\<close>, with the labels Build Status,
  Test Coverage, Tests and Version.
  \<open>close_link s\<close> is the text after a match of \<open>\]\([^)]*\)\<close> at the start of \<open>s\<close>: a closing
  bracket, an opening parenthesis, the longest run of characters other than a closing
  parenthesis (newlines included), and a closing parenthesis.
  \<open>lazy_link s\<close> is the text after a match of \<open>.*?\]\([^)]*\)\<close> at the start of \<open>s\<close>: the lazy
  star tries the rest of the pattern first and takes one more character, which must not
  be a newline, only when that fails.
  \<open>match_badge label s\<close> is the text after a match of the whole pattern at the start of \<open>s\<close>.
  \<open>re_sub label repl s\<close> is \<open>re.sub(pattern, repl, s)\<close> for a replacement without backslash,
  which \<open>re.sub\<close> inserts as it is: every match is replaced, leftmost first, and the
  search goes on after the match (no \<open>count\<close> is given, and no match is empty).
\<close>

definition close_link :: "string \<Rightarrow> string option" where
  "close_link s =
     (case s of
        a # b # u \<Rightarrow>
          if a = CHR '']'' \<and> b = CHR ''(''
          then (case dropWhile (\<lambda>c. c \<noteq> CHR '')'') u of
                  [] \<Rightarrow> None
                | _ # r \<Rightarrow> Some r)
          else None
      | _ \<Rightarrow> None)"

fun lazy_link :: "string \<Rightarrow> string option" where
  "lazy_link [] = None"
| "lazy_link (c # cs) =
     (case close_link (c # cs) of
        Some r \<Rightarrow> Some r
      | None \<Rightarrow> if c = CHR ''\<newline>'' then None else lazy_link cs)"

definition match_badge :: "string \<Rightarrow> string \<Rightarrow> string option" where
  "match_badge label s =
     (if prefix (''[!['' @ label @ '']'') s
      then lazy_link (drop (length (''[!['' @ label @ '']'')) s)
      else None)"

lemma close_link_shorter: "close_link s = Some r \<Longrightarrow> length r < length s"
proof -
  assume c: "close_link s = Some r"
  then obtain a b u x where s: "s = a # b # u" and d: "dropWhile (\<lambda>c. c \<noteq> CHR '')'') u = x # r"
    by (auto simp: close_link_def split: list.splits if_splits)
  have "length (dropWhile (\<lambda>c. c \<noteq> CHR '')'') u) \<le> length u"
    by (rule length_dropWhile_le)
  with s d show ?thesis by simp
qed

lemma lazy_link_shorter: "lazy_link s = Some r \<Longrightarrow> length r < length s"
proof (induction s)
  case Nil
  then show ?case by simp
next
  case (Cons c cs)
  show ?case
  proof (cases "close_link (c # cs)")
    case None
    with Cons show ?thesis by (auto split: if_splits)
  next
    case (Some r')
    with Cons.prems close_link_shorter [of "c # cs" r] show ?thesis by simp
  qed
qed

lemma match_badge_shorter: "match_badge label s = Some r \<Longrightarrow> length r < length s"
proof -
  assume "match_badge label s = Some r"
  then have "lazy_link (drop (length (''[!['' @ label @ '']'')) s) = Some r"
    by (simp add: match_badge_def split: if_splits)
  from lazy_link_shorter [OF this] show ?thesis by simp
qed

function re_sub :: "string \<Rightarrow> string \<Rightarrow> string \<Rightarrow> string" where
  "re_sub label repl [] = []"
| "re_sub label repl (c # cs) =
     (case match_badge label (c # cs) of
        Some r \<Rightarrow> repl @ re_sub label repl r
      | None \<Rightarrow> c # re_sub label repl cs)"
  by pat_completeness auto
termination
  by (relation "measure (\<lambda>(l, r, s). length s)") (auto dest: match_badge_shorter)

text \<open>
  The badge URLs (the dictionary that \<open>generate_badges\<close> returns, with its four keys), and
  what \<open>update_readme\<close> does to \<open>README.md\<close>: nothing when there is no such file, or the new
  content written. A replacement that holds a backslash is read by \<open>re.sub\<close> as a template
  (escapes, group references, or an error); that reading is not part of this
  development, and \<open>Replacement_template\<close> marks it.
\<close>

record badges =
  version :: string
  build :: string
  tests :: string
  coverage :: string

datatype readme_update = README_not_found | README_written string | Replacement_template string

fun sub_all :: "(string \<times> string) list \<Rightarrow> string \<Rightarrow> readme_update" where
  "sub_all [] content = README_written content"
| "sub_all ((label, replacement) # replacements) content =
     (if CHR 0x5C \<in> set replacement then Replacement_template replacement
      else sub_all replacements (re_sub label replacement content))"

definition update_readme :: "badges \<Rightarrow> string option \<Rightarrow> readme_update" where
  "update_readme badges readme =
     (case readme of
        None \<Rightarrow> README_not_found
      | Some content \<Rightarrow>
          (let replacements =
                 [(''Build Status'', ''[![Build Status]('' @ build badges @ '')](#)''),
                  (''Test Coverage'', ''[![Test Coverage]('' @ coverage badges @ '')](#)''),
                  (''Tests'', ''[![Tests]('' @ tests badges @ '')](#)''),
                  (''Version'', ''[![Version]('' @ version badges @ '')](#)'')]
           in sub_all replacements content))"

text \<open>
  A README seen as a sequence of pieces: badge links \<open>[![label](url)](target)\<close> and other
  text. \<open>set_url label url\<close> gives the links of one label a new URL and the placeholder
  target \<open>#\<close>, \<open>refresh b\<close> does so for the four categories with the URLs of \<open>b\<close>. Other text
  is plain when \<open>[!\<close> does not occur in it and it does not end with an opening bracket (so
  no match starts in it); links such as \<open>[docs](docs.md)\<close> are plain text. A link is well
  formed when its label has no bracket, its URL and its target have no opening bracket,
  and, for the four categories, its URL has no closing bracket and no newline and its
  target no closing parenthesis.
\<close>

datatype piece = Text string | Badge string string string

fun render_piece :: "piece \<Rightarrow> string" where
  "render_piece (Text t) = t"
| "render_piece (Badge label url target) = ''[!['' @ label @ '']('' @ url @ '')]('' @ target @ '')''"

definition render :: "piece list \<Rightarrow> string" where
  "render ps = concat (map render_piece ps)"

fun set_url :: "string \<Rightarrow> string \<Rightarrow> piece \<Rightarrow> piece" where
  "set_url label url (Text t) = Text t"
| "set_url label url (Badge l u a) = (if l = label then Badge l url ''#'' else Badge l u a)"

definition plain_text :: "string \<Rightarrow> bool" where
  "plain_text t = (\<not> sublist ''[!'' t \<and> (t = [] \<or> last t \<noteq> CHR ''[''))"

fun wf1 :: "string \<Rightarrow> piece \<Rightarrow> bool" where
  "wf1 label (Text t) = plain_text t"
| "wf1 label (Badge l u a) =
     (CHR ''['' \<notin> set l \<and> CHR '']'' \<notin> set l \<and> CHR ''['' \<notin> set u \<and> CHR ''['' \<notin> set a
      \<and> (l = label \<longrightarrow>
            CHR '']'' \<notin> set u \<and> CHR ''\<newline>'' \<notin> set u \<and> CHR '')'' \<notin> set a))"

definition categories :: "string list" where
  "categories = [''Build Status'', ''Test Coverage'', ''Tests'', ''Version'']"

fun wf_piece :: "piece \<Rightarrow> bool" where
  "wf_piece (Text t) = plain_text t"
| "wf_piece (Badge l u a) =
     (CHR ''['' \<notin> set l \<and> CHR '']'' \<notin> set l \<and> CHR ''['' \<notin> set u \<and> CHR ''['' \<notin> set a
      \<and> (l \<in> set categories \<longrightarrow>
            CHR '']'' \<notin> set u \<and> CHR ''\<newline>'' \<notin> set u \<and> CHR '')'' \<notin> set a))"

definition wf_url :: "string \<Rightarrow> bool" where
  "wf_url u = (CHR 0x5C \<notin> set u \<and> CHR ''['' \<notin> set u)"

definition wf_badges :: "badges \<Rightarrow> bool" where
  "wf_badges b = (wf_url (build b) \<and> wf_url (coverage b) \<and> wf_url (tests b) \<and> wf_url (version b))"

fun refresh :: "badges \<Rightarrow> piece \<Rightarrow> piece" where
  "refresh b (Text t) = Text t"
| "refresh b (Badge l u a) =
     (if l = ''Build Status'' then Badge l (build b) ''#''
      else if l = ''Test Coverage'' then Badge l (coverage b) ''#''
      else if l = ''Tests'' then Badge l (tests b) ''#''
      else if l = ''Version'' then Badge l (version b) ''#''
      else Badge l u a)"

section \<open>Properties\<close>

subsection \<open>create\_badge\_url\<close>

lemma url_escape_Nil: "url_escape [] = []"
  by (simp add: url_escape_def)

lemma url_escape_Cons: "url_escape (c # cs) = escape_char c @ url_escape cs"
  by (simp add: url_escape_def escape_char_def)

lemma url_escape_concat: "url_escape x = concat (map escape_char x)"
  by (induction x) (simp_all add: url_escape_Nil url_escape_Cons)

lemma length_url_escape: "length (url_escape x) = length x + 2 * length (filter (\<lambda>c. c = CHR ''%'' \<or> c = CHR '' '') x)"
  by (induction x) (simp_all add: url_escape_Nil url_escape_Cons escape_char_def)

lemma url_escape_plain: "plain x \<Longrightarrow> url_escape x = x"
  by (induction x) (auto simp: url_escape_Nil url_escape_Cons escape_char_def plain_def)

lemma plain_iff_filter: "plain x \<longleftrightarrow> filter (\<lambda>c. c = CHR ''%'' \<or> c = CHR '' '') x = []"
  by (auto simp: plain_def filter_empty_conv)

lemma length_url_escape_twice:
  "length (url_escape (url_escape x)) = length (url_escape x) \<longleftrightarrow> plain x"
proof
  assume "plain x"
  then show "length (url_escape (url_escape x)) = length (url_escape x)"
    by (simp add: url_escape_plain)
next
  assume eq: "length (url_escape (url_escape x)) = length (url_escape x)"
  have "filter (\<lambda>c. c = CHR ''%'' \<or> c = CHR '' '') (url_escape x) = []"
    using eq length_url_escape [of "url_escape x"] by simp
  then have no: "CHR ''%'' \<notin> set (url_escape x)"
    by (auto simp: filter_empty_conv)
  have "plain x"
  proof (rule ccontr)
    assume "\<not> plain x"
    then obtain c where c: "c \<in> set x" "c = CHR ''%'' \<or> c = CHR '' ''"
      by (auto simp: plain_def)
    then have "CHR ''%'' \<in> set (escape_char c)"
      by (auto simp: escape_char_def)
    with c(1) have "CHR ''%'' \<in> set (url_escape x)"
      by (auto simp: url_escape_concat)
    with no show False by simp
  qed
  then show "plain x" .
qed

lemma length_url_escape_mono: "length (url_escape x) \<le> length (url_escape (url_escape x))"
  using length_url_escape [of "url_escape x"] by simp

text \<open>
  C3 (as stated): the URL builder is idempotent, encoding a label/message pair twice
  gives the URL of encoding it once. The code does not do that: the pair
  \<open>("a b", "m")\<close> is encoded to \<open>a%20b\<close>, and encoding that again escapes the new
  percent sign.
\<close>

theorem create_badge_url_not_idempotent:
  "create_badge_url (url_escape ''a b'') (url_escape ''m'') ''blue''
     = ''https://img.shields.io/badge/a%2520b-m-blue.svg''
   \<and> create_badge_url ''a b'' ''m'' ''blue'' = ''https://img.shields.io/badge/a%20b-m-blue.svg''
   \<and> create_badge_url (url_escape ''a b'') (url_escape ''m'') ''blue''
     \<noteq> create_badge_url ''a b'' ''m'' ''blue''"
  by (simp add: create_badge_url_def url_escape_def)

text \<open>
  C3 (amended): within one call every percent sign and every space of the label and of
  the message is escaped exactly once (the percent sign of an inserted \<open>%20\<close> is not
  escaped again, because percent signs are replaced first); and encoding the escaped pair
  a second time gives the same URL exactly when label and message hold neither a percent
  sign nor a space.
\<close>

theorem create_badge_url_escapes_once:
  "create_badge_url label message color
     = ''https://img.shields.io/badge/'' @ concat (map escape_char label) @ ''-''
         @ concat (map escape_char message) @ ''-'' @ color @ ''.svg''
   \<and> (create_badge_url (url_escape label) (url_escape message) color
         = create_badge_url label message color
       \<longleftrightarrow> plain label \<and> plain message)"
proof
  show "create_badge_url label message color
     = ''https://img.shields.io/badge/'' @ concat (map escape_char label) @ ''-''
         @ concat (map escape_char message) @ ''-'' @ color @ ''.svg''"
    by (simp add: create_badge_url_def url_escape_concat)
next
  let ?l = "url_escape label" and ?m = "url_escape message"
  let ?l2 = "url_escape (url_escape label)" and ?m2 = "url_escape (url_escape message)"
  have twice: "create_badge_url ?l ?m color = create_badge_url label message color
      \<longleftrightarrow> ?l2 @ ''-'' @ ?m2 = ?l @ ''-'' @ ?m"
    by (simp add: create_badge_url_def)
  show "create_badge_url ?l ?m color = create_badge_url label message color
       \<longleftrightarrow> plain label \<and> plain message"
  proof
    assume "plain label \<and> plain message"
    then show "create_badge_url ?l ?m color = create_badge_url label message color"
      by (simp add: twice url_escape_plain)
  next
    assume "create_badge_url ?l ?m color = create_badge_url label message color"
    then have "?l2 @ ''-'' @ ?m2 = ?l @ ''-'' @ ?m"
      by (simp add: twice)
    then have "length (?l2 @ ''-'' @ ?m2) = length (?l @ ''-'' @ ?m)"
      by simp
    then have "length ?l2 + length ?m2 = length ?l + length ?m"
      by simp
    with length_url_escape_mono [of label] length_url_escape_mono [of message]
    have "length ?l2 = length ?l" and "length ?m2 = length ?m"
      by linarith+
    then show "plain label \<and> plain message"
      by (simp add: length_url_escape_twice)
  qed
qed

theorem create_badge_url_escapes_once_witness:
  "create_badge_url (url_escape ''v1.0'') (url_escape ''ok'') ''blue''
     = create_badge_url ''v1.0'' ''ok'' ''blue''
   \<and> plain ''v1.0'' \<and> plain ''ok''
   \<and> create_badge_url (url_escape ''100%'') (url_escape ''ok'') ''blue''
     \<noteq> create_badge_url ''100%'' ''ok'' ''blue''
   \<and> \<not> plain ''100%''"
  using create_badge_url_escapes_once [of "''v1.0''" "''ok''" "''blue''", THEN conjunct2]
    create_badge_url_escapes_once [of "''100%''" "''ok''" "''blue''", THEN conjunct2]
  by (simp add: plain_def)

subsection \<open>run\_tests\<close>

lemma fold_count_line:
  "fold count_line ls (p, f) =
     (p + length (filter pass_line (map strip_ansi ls)),
      f + length (filter (\<lambda>l. fail_marker l \<and> \<not> pass_line l) (map strip_ansi ls)))"
  by (induction ls arbitrary: p f)
     (simp_all add: count_line_def pass_line_def fail_marker_def Let_def)

lemma count_files:
  "fold count_line (str_split CHR ''\<newline>'' out) (0, 0) =
     (length (filter pass_line (clean_lines out)),
      length (filter (\<lambda>l. fail_marker l \<and> \<not> pass_line l) (clean_lines out)))"
  by (simp add: fold_count_line clean_lines_def)

text \<open>The three outcomes of a run that exits with code 0, and the outcome of any other run.\<close>

lemma run_tests_exit0:
  "run_tests (0, out, err) fs =
     (let p = length (filter pass_line (clean_lines out));
          f = length (filter (\<lambda>l. fail_marker l \<and> \<not> pass_line l) (clean_lines out));
          m = count_test_blocks fs
      in if p > 0 \<and> f = 0
         then \<lparr>status = ''passing'', passed = m, failed = 0, total = m, test_functions = m\<rparr>
         else if f > 0
         then \<lparr>status = ''failing'', passed = 0, failed = m, total = m, test_functions = m\<rparr>
         else \<lparr>status = ''no tests'', passed = 0, failed = 0, total = 0, test_functions = 0\<rparr>)"
  by (simp add: run_tests_def count_files Let_def)

lemma run_tests_nonzero:
  "ec \<noteq> 0 \<Longrightarrow> run_tests (ec, out, err) fs =
     \<lparr>status = ''failing'', passed = 0, failed = 0, total = 0, test_functions = 0\<rparr>"
  by (simp add: run_tests_def)

lemma no_fail_lines:
  "filter fail_marker ls = [] \<Longrightarrow> filter (\<lambda>l. fail_marker l \<and> \<not> pass_line l) ls = []"
  by (simp add: filter_empty_conv)

lemma some_fail_line:
  "\<exists>l \<in> set ls. fail_marker l \<and> \<not> pass_line l \<Longrightarrow>
   0 < length (filter (\<lambda>l. fail_marker l \<and> \<not> pass_line l) ls)"
  by (simp add: filter_empty_conv)

text \<open>
  C4: a run that exits with code 0, whose output has \<open>N \<ge> 1\<close> pass lines and no line
  bearing the fail marker, with \<open>M\<close> test blocks counted in the test files, is reported
  as passing with total = passed = test\_functions = \<open>M\<close> and failed = 0.
\<close>

theorem run_tests_passing:
  assumes "exit_code = 0"
    and "length (filter pass_line (clean_lines stdout)) = N" and "N \<ge> 1"
    and "filter fail_marker (clean_lines stdout) = []"
    and "count_test_blocks test_files = M"
  shows "run_tests (exit_code, stdout, stderr) test_files =
           \<lparr>status = ''passing'', passed = M, failed = 0, total = M, test_functions = M\<rparr>"
  using assms by (simp add: run_tests_exit0 no_fail_lines)

theorem run_tests_passing_witness:
  "length (filter pass_line (clean_lines
      (''PASS: tests/t_eval.nim c (0.52 sec)'' @ [CHR ''\<newline>'']
         @ ''PASS: tests/t_parse.nim c (0.40 sec)'' @ [CHR ''\<newline>'']))) = 2
   \<and> filter fail_marker (clean_lines
      (''PASS: tests/t_eval.nim c (0.52 sec)'' @ [CHR ''\<newline>'']
         @ ''PASS: tests/t_parse.nim c (0.40 sec)'' @ [CHR ''\<newline>''])) = []
   \<and> count_test_blocks
        [Inr (''block:'' @ [CHR ''\<newline>''] @ ''  doAssert true'' @ [CHR ''\<newline>''] @ ''block:''),
         Inl OSError, Inr ''block: # third''] = 3
   \<and> run_tests (0, ''PASS: tests/t_eval.nim c (0.52 sec)'' @ [CHR ''\<newline>'']
                    @ ''PASS: tests/t_parse.nim c (0.40 sec)'' @ [CHR ''\<newline>''], [])
        [Inr (''block:'' @ [CHR ''\<newline>''] @ ''  doAssert true'' @ [CHR ''\<newline>''] @ ''block:''),
         Inl OSError, Inr ''block: # third'']
      = \<lparr>status = ''passing'', passed = 3, failed = 0, total = 3, test_functions = 3\<rparr>"
proof -
  let ?out = "''PASS: tests/t_eval.nim c (0.52 sec)'' @ [CHR ''\<newline>'']
                @ ''PASS: tests/t_parse.nim c (0.40 sec)'' @ [CHR ''\<newline>'']"
  let ?fs = "[Inr (''block:'' @ [CHR ''\<newline>''] @ ''  doAssert true'' @ [CHR ''\<newline>''] @ ''block:''),
              Inl OSError, Inr ''block: # third'']"
  have n: "length (filter pass_line (clean_lines ?out)) = 2"
    by code_simp
  have f: "filter fail_marker (clean_lines ?out) = []"
    by code_simp
  have m: "count_test_blocks ?fs = 3"
    by code_simp
  have "run_tests (0, ?out, []) ?fs
      = \<lparr>status = ''passing'', passed = 3, failed = 0, total = 3, test_functions = 3\<rparr>"
    by (rule run_tests_passing [OF refl n _ f m]) simp
  with n f m show ?thesis by blast
qed

text \<open>
  C5 (as stated): every output with at least one line bearing the fail marker is
  reported as failing, with passed = 0 and total = failed = test\_functions = the block
  count. The code counts a line as a failure only when it is not a pass line, and it
  looks at the output only when the runner's exit code is 0: an output whose only line
  bears all three markers is reported as passing, and a run with a fail line and exit
  code 1 is reported with total 0 although one block stands in the test files.
\<close>

theorem run_tests_fail_marker_not_failing:
  "filter fail_marker (clean_lines ''PASS: tests/t_FAIL:x.nim c (0.52 sec)'') \<noteq> []
   \<and> run_tests (0, ''PASS: tests/t_FAIL:x.nim c (0.52 sec)'', []) [Inr ''block:'']
      = \<lparr>status = ''passing'', passed = 1, failed = 0, total = 1, test_functions = 1\<rparr>
   \<and> filter fail_marker (clean_lines ''FAIL: tests/t_eval.nim c'') \<noteq> []
   \<and> count_test_blocks [Inr ''block:''] = 1
   \<and> run_tests (1, ''FAIL: tests/t_eval.nim c'', []) [Inr ''block:'']
      = \<lparr>status = ''failing'', passed = 0, failed = 0, total = 0, test_functions = 0\<rparr>"
  by code_simp

text \<open>
  C5 (amended): a run that exits with code 0 and whose output has at least one line that
  bears the fail marker and is not a pass line is reported as failing, with passed = 0
  and total = failed = test\_functions = the block count, however many pass lines there
  are; a run that exits with another code is reported as failing with all counts 0.
\<close>

theorem run_tests_failing:
  "(exit_code = 0 \<and> (\<exists>l \<in> set (clean_lines stdout). fail_marker l \<and> \<not> pass_line l) \<longrightarrow>
      run_tests (exit_code, stdout, stderr) test_files =
        \<lparr>status = ''failing'', passed = 0, failed = count_test_blocks test_files,
         total = count_test_blocks test_files,
         test_functions = count_test_blocks test_files\<rparr>)
   \<and> (exit_code \<noteq> 0 \<longrightarrow>
      run_tests (exit_code, stdout, stderr) test_files =
        \<lparr>status = ''failing'', passed = 0, failed = 0, total = 0, test_functions = 0\<rparr>)"
proof (intro conjI impI)
  assume a: "exit_code = 0 \<and> (\<exists>l \<in> set (clean_lines stdout). fail_marker l \<and> \<not> pass_line l)"
  then have "0 < length (filter (\<lambda>l. fail_marker l \<and> \<not> pass_line l) (clean_lines stdout))"
    by (intro some_fail_line) simp
  with a show "run_tests (exit_code, stdout, stderr) test_files =
        \<lparr>status = ''failing'', passed = 0, failed = count_test_blocks test_files,
         total = count_test_blocks test_files,
         test_functions = count_test_blocks test_files\<rparr>"
    by (simp add: run_tests_exit0 Let_def)
next
  assume "exit_code \<noteq> 0"
  then show "run_tests (exit_code, stdout, stderr) test_files =
        \<lparr>status = ''failing'', passed = 0, failed = 0, total = 0, test_functions = 0\<rparr>"
    by (rule run_tests_nonzero)
qed

theorem run_tests_failing_witness:
  "(\<exists>l \<in> set (clean_lines (''PASS: tests/t_eval.nim c (0.52 sec)'' @ [CHR ''\<newline>'']
                               @ ''FAIL: tests/t_parse.nim c'')).
       fail_marker l \<and> \<not> pass_line l)
   \<and> run_tests (0, ''PASS: tests/t_eval.nim c (0.52 sec)'' @ [CHR ''\<newline>'']
                    @ ''FAIL: tests/t_parse.nim c'', [])
        [Inr (''block:'' @ [CHR ''\<newline>''] @ ''block:''), Inr ''block:'']
      = \<lparr>status = ''failing'', passed = 0, failed = 3, total = 3, test_functions = 3\<rparr>
   \<and> run_tests (1, ''FAIL: tests/t_parse.nim c'', []) [Inr ''block:'']
      = \<lparr>status = ''failing'', passed = 0, failed = 0, total = 0, test_functions = 0\<rparr>"
proof -
  let ?out = "''PASS: tests/t_eval.nim c (0.52 sec)'' @ [CHR ''\<newline>'']
                @ ''FAIL: tests/t_parse.nim c''"
  let ?fs = "[Inr (''block:'' @ [CHR ''\<newline>''] @ ''block:''), Inr ''block:'']"
  have l: "\<exists>l \<in> set (clean_lines ?out). fail_marker l \<and> \<not> pass_line l"
    by code_simp
  have m: "count_test_blocks ?fs = 3"
    by code_simp
  from l m run_tests_failing [of 0 ?out "[]" ?fs]
    run_tests_failing [of 1 "''FAIL: tests/t_parse.nim c''" "[]" "[Inr ''block:'']"]
  show ?thesis by simp
qed

text \<open>
  C8: whatever the runner's exit code and output, the record returned has
  passed + failed = total, total = test\_functions, and one of the three statuses.
\<close>

theorem run_tests_invariant:
  "passed (run_tests testament test_files) + failed (run_tests testament test_files)
     = total (run_tests testament test_files)
   \<and> total (run_tests testament test_files) = test_functions (run_tests testament test_files)
   \<and> (status (run_tests testament test_files) = ''no tests''
      \<or> status (run_tests testament test_files) = ''passing''
      \<or> status (run_tests testament test_files) = ''failing'')"
proof -
  obtain exit_code out err where t: "testament = (exit_code, out, err)"
    by (cases testament) auto
  show ?thesis
  proof (cases "exit_code = 0")
    case True
    then show ?thesis
      unfolding t by (simp add: run_tests_exit0 Let_def)
  next
    case False
    then show ?thesis
      unfolding t by (simp add: run_tests_nonzero)
  qed
qed

text \<open>Each of the three statuses is returned by some run.\<close>

lemma run_tests_statuses:
  "status (run_tests (0, [], []) []) = ''no tests''"
  "status (run_tests (0, ''PASS: tests/t_eval.nim c'', []) []) = ''passing''"
  "status (run_tests (0, ''FAIL: tests/t_eval.nim c'', []) []) = ''failing''"
  by code_simp+

text \<open>
  C9: a run that exits with code 0, with at least one pass line and no line bearing the
  fail marker, but with no test block in the test files, is reported as passing with
  total 0; the tests badge then carries the message \<open>no tests\<close> and the color
  \<open>brightgreen\<close>.
\<close>

theorem passing_without_blocks:
  assumes "exit_code = 0"
    and "filter pass_line (clean_lines stdout) \<noteq> []"
    and "filter fail_marker (clean_lines stdout) = []"
    and "count_test_blocks test_files = 0"
  shows "run_tests (exit_code, stdout, stderr) test_files =
           \<lparr>status = ''passing'', passed = 0, failed = 0, total = 0, test_functions = 0\<rparr>
         \<and> test_message (run_tests (exit_code, stdout, stderr) test_files) = ''no tests''
         \<and> test_color (run_tests (exit_code, stdout, stderr) test_files) = ''brightgreen''
         \<and> tests_badge (run_tests (exit_code, stdout, stderr) test_files)
             = ''https://img.shields.io/badge/tests-no%20tests-brightgreen.svg''"
proof -
  have r: "run_tests (exit_code, stdout, stderr) test_files =
           \<lparr>status = ''passing'', passed = 0, failed = 0, total = 0, test_functions = 0\<rparr>"
    using assms by (simp add: run_tests_exit0 no_fail_lines)
  have "create_badge_url ''tests'' ''no tests'' ''brightgreen''
          = ''https://img.shields.io/badge/tests-no%20tests-brightgreen.svg''"
    by (simp add: create_badge_url_def url_escape_def)
  then show ?thesis
    by (simp add: r tests_badge_def test_message_def test_color_def)
qed

theorem passing_without_blocks_witness:
  "filter pass_line (clean_lines ''PASS: tests/t_eval.nim c (0.52 sec)'') \<noteq> []
   \<and> filter fail_marker (clean_lines ''PASS: tests/t_eval.nim c (0.52 sec)'') = []
   \<and> count_test_blocks [Inr ''echo 1'', Inl UnicodeDecodeError] = 0
   \<and> run_tests (0, ''PASS: tests/t_eval.nim c (0.52 sec)'', [])
        [Inr ''echo 1'', Inl UnicodeDecodeError]
      = \<lparr>status = ''passing'', passed = 0, failed = 0, total = 0, test_functions = 0\<rparr>
   \<and> tests_badge (run_tests (0, ''PASS: tests/t_eval.nim c (0.52 sec)'', [])
        [Inr ''echo 1'', Inl UnicodeDecodeError])
      = ''https://img.shields.io/badge/tests-no%20tests-brightgreen.svg''"
proof -
  let ?out = "''PASS: tests/t_eval.nim c (0.52 sec)''"
  let ?fs = "[Inr ''echo 1'', Inl UnicodeDecodeError]"
  have p: "filter pass_line (clean_lines ?out) \<noteq> []"
    by code_simp
  have f: "filter fail_marker (clean_lines ?out) = []"
    by code_simp
  have m: "count_test_blocks ?fs = 0"
    by code_simp
  from passing_without_blocks [OF refl p f m, of "[]"] p f m
  show ?thesis by blast
qed

subsection \<open>get\_project\_version\<close>

lemma dropWhile_spaces: "list_all is_space ws \<Longrightarrow> \<not> is_space c \<Longrightarrow> dropWhile is_space (ws @ c # r) = c # r"
  by (induction ws) simp_all

lemma not_space [simp]: "\<not> is_space CHR ''=''" "\<not> is_space CHR 0x22"
  by (simp_all add: is_space_def)

lemma takeWhile_until: "x \<notin> set v \<Longrightarrow> takeWhile (\<lambda>c. c \<noteq> x) (v @ x # r) = v"
  by (induction v) auto

lemma dropWhile_until: "x \<notin> set v \<Longrightarrow> dropWhile (\<lambda>c. c \<noteq> x) (v @ x # r) = x # r"
  by (induction v) auto

lemma match_version_field:
  assumes "version_field s ws1 ws2 v post"
  shows "match_version s = Some v"
proof -
  from assms have s: "s = ''version'' @ ws1 @ CHR ''='' # ws2 @ CHR 0x22 # v @ CHR 0x22 # post"
    and w: "list_all is_space ws1" "list_all is_space ws2" and v: "v \<noteq> []" "CHR 0x22 \<notin> set v"
    by (simp_all add: version_field_def)
  have t: "takeWhile (\<lambda>c. c \<noteq> CHR 0x22) (v @ CHR 0x22 # post) = v"
    using v(2) by (rule takeWhile_until)
  have d: "dropWhile (\<lambda>c. c \<noteq> CHR 0x22) (v @ CHR 0x22 # post) = CHR 0x22 # post"
    using v(2) by (rule dropWhile_until)
  show ?thesis
    unfolding s match_version_def using w v(1)
    by (simp add: dropWhile_spaces t d)
qed

lemma match_version_Some:
  assumes "match_version s = Some v"
  shows "\<exists>ws1 ws2 post. version_field s ws1 ws2 v post"
proof -
  from assms have p: "prefix ''version'' s"
    by (simp add: match_version_def split: if_splits)
  then obtain s1 where s: "s = ''version'' @ s1"
    by (auto simp: prefix_def)
  then have d7: "drop 7 s = s1" by simp
  from assms p d7 obtain t where t: "dropWhile is_space s1 = CHR ''='' # t"
    by (auto simp: match_version_def split: list.splits if_splits)
  from assms p d7 t obtain u where u: "dropWhile is_space t = CHR 0x22 # u"
    by (auto simp: match_version_def split: list.splits if_splits)
  from assms p d7 t u have v: "v = takeWhile (\<lambda>c. c \<noteq> CHR 0x22) u" "v \<noteq> []"
      and nz: "dropWhile (\<lambda>c. c \<noteq> CHR 0x22) u \<noteq> []"
    by (auto simp: match_version_def Let_def split: if_splits)
  from nz obtain q post where qp: "dropWhile (\<lambda>c. c \<noteq> CHR 0x22) u = q # post"
    by (cases "dropWhile (\<lambda>c. c \<noteq> CHR 0x22) u") auto
  from hd_dropWhile [OF nz] qp have "q = CHR 0x22"
    by simp
  with qp have post: "dropWhile (\<lambda>c. c \<noteq> CHR 0x22) u = CHR 0x22 # post"
    by simp
  let ?ws1 = "takeWhile is_space s1" and ?ws2 = "takeWhile is_space t"
  have "s1 = ?ws1 @ CHR ''='' # t"
    using takeWhile_dropWhile_id [of is_space s1] t by simp
  moreover have "t = ?ws2 @ CHR 0x22 # u"
    using takeWhile_dropWhile_id [of is_space t] u by simp
  moreover have "u = v @ CHR 0x22 # post"
    using takeWhile_dropWhile_id [of "\<lambda>c. c \<noteq> CHR 0x22" u] post v(1) by simp
  moreover have "list_all is_space ?ws1" "list_all is_space ?ws2"
    by (auto simp: list_all_iff dest: set_takeWhileD)
  moreover have "CHR 0x22 \<notin> set v"
    unfolding v(1) by (auto dest: set_takeWhileD)
  ultimately have "version_field s ?ws1 ?ws2 v post"
    using s v(2) unfolding version_field_def by simp
  then show ?thesis by blast
qed

lemma has_version_field_iff:
  "has_version_field content \<longleftrightarrow> (\<exists>pre s ws1 ws2 v post. content = pre @ s \<and> version_field s ws1 ws2 v post)"
  unfolding has_version_field_def version_field_def by blast

lemma search_version_Some:
  "search_version content = Some v \<Longrightarrow> \<exists>pre s ws1 ws2 post. content = pre @ s \<and> version_field s ws1 ws2 v post"
proof (induction content)
  case Nil
  then show ?case by simp
next
  case (Cons c cs)
  show ?case
  proof (cases "match_version (c # cs)")
    case None
    with Cons obtain pre s ws1 ws2 post where "cs = pre @ s" "version_field s ws1 ws2 v post"
      by auto
    then have "c # cs = (c # pre) @ s \<and> version_field s ws1 ws2 v post" by simp
    then show ?thesis by blast
  next
    case (Some w)
    with Cons.prems have "w = v" by simp
    with Some match_version_Some [of "c # cs" v]
    have "\<exists>ws1 ws2 post. c # cs = [] @ (c # cs) \<and> version_field (c # cs) ws1 ws2 v post" by simp
    then show ?thesis by blast
  qed
qed

lemma search_version_field:
  "version_field s ws1 ws2 v post \<Longrightarrow> \<exists>w. search_version (pre @ s) = Some w"
proof (induction pre)
  case Nil
  then have m: "match_version s = Some v" by (rule match_version_field)
  then have "s \<noteq> []" by (auto simp: match_version_def)
  then obtain c cs where "s = c # cs" by (cases s) auto
  with m show ?case by simp
next
  case (Cons c pre)
  then show ?case by (cases "match_version (c # pre @ s)") auto
qed

lemma search_version_None_iff: "search_version content = None \<longleftrightarrow> \<not> has_version_field content"
proof
  assume n: "search_version content = None"
  show "\<not> has_version_field content"
  proof
    assume "has_version_field content"
    then obtain pre s ws1 ws2 v post where "content = pre @ s" "version_field s ws1 ws2 v post"
      by (auto simp: has_version_field_iff)
    with search_version_field [of s ws1 ws2 v post pre] n show False by simp
  qed
next
  assume h: "\<not> has_version_field content"
  show "search_version content = None"
  proof (rule ccontr)
    assume "search_version content \<noteq> None"
    then obtain v where "search_version content = Some v" by auto
    from search_version_Some [OF this] h show False
      unfolding has_version_field_iff by blast
  qed
qed

lemma get_project_version_Inr:
  "get_project_version (Inr (Inr content # others)) =
     (case search_version content of Some v \<Rightarrow> Inr v | None \<Rightarrow> Inr ''0.1.0'')"
  by (simp add: get_project_version_def get_project_version_try_def split: option.splits)

text \<open>
  C7: the version reader returns \<open>0.1.0\<close> when there is no manifest file, when the
  content of the manifest has no version field, and when reading raises; and it always
  returns a value, never an exception.
\<close>

theorem get_project_version_fallback:
  "(\<exists>v. get_project_version glob = Inr v)
   \<and> get_project_version (Inr []) = Inr ''0.1.0''
   \<and> (\<not> has_version_field content \<longrightarrow>
        get_project_version (Inr (Inr content # others)) = Inr ''0.1.0'')
   \<and> get_project_version (Inr (Inl e # others)) = Inr ''0.1.0''
   \<and> get_project_version (Inl e) = Inr ''0.1.0''"
proof (intro conjI impI)
  show "\<exists>v. get_project_version glob = Inr v"
    by (cases "get_project_version_try glob") (simp_all add: get_project_version_def)
next
  assume "\<not> has_version_field content"
  then have "search_version content = None"
    by (simp add: search_version_None_iff)
  then show "get_project_version (Inr (Inr content # others)) = Inr ''0.1.0''"
    by (simp add: get_project_version_Inr)
qed (simp_all add: get_project_version_def get_project_version_try_def)

theorem get_project_version_fallback_witness:
  "\<not> has_version_field (''# Package'' @ [CHR ''\<newline>''] @ ''version = 1.0'')
   \<and> get_project_version
        (Inr [Inr (''# Package'' @ [CHR ''\<newline>''] @ ''version = 1.0'')]) = Inr ''0.1.0''
   \<and> get_project_version (Inr []) = Inr ''0.1.0''
   \<and> get_project_version (Inr [Inl UnicodeDecodeError]) = Inr ''0.1.0''
   \<and> get_project_version (Inl OSError) = Inr ''0.1.0''"
proof -
  let ?c = "''# Package'' @ [CHR ''\<newline>''] @ ''version = 1.0''"
  have "search_version ?c = None"
    by code_simp
  then have n: "\<not> has_version_field ?c"
    by (rule search_version_None_iff [THEN iffD1])
  from n get_project_version_fallback [of "Inr []" ?c "[]" UnicodeDecodeError]
    get_project_version_fallback [of "Inr []" ?c "[]" OSError]
  show ?thesis by blast
qed

text \<open>The example of the specification: a manifest with version 2.3.1.\<close>

lemma version_badge_example:
  "get_project_version
     (Inr [Inr (''version       = '' @ [CHR 0x22] @ ''2.3.1'' @ [CHR 0x22] @ [CHR ''\<newline>''])])
     = Inr ''2.3.1''"
  "version_badge ''2.3.1'' = ''https://img.shields.io/badge/version-v2.3.1-blue.svg''"
  by (code_simp, simp add: version_badge_def create_badge_url_def url_escape_def)

text \<open>
  C10: with several manifest files, only the first in glob order is consulted; when it has
  no version field the result is \<open>0.1.0\<close>, whatever the other manifest files hold.
\<close>

theorem get_project_version_first_only:
  "get_project_version (Inr (first # others)) = get_project_version (Inr [first])
   \<and> (\<not> has_version_field content \<longrightarrow>
        get_project_version (Inr (Inr content # others)) = Inr ''0.1.0'')"
proof (intro conjI impI)
  show "get_project_version (Inr (first # others)) = get_project_version (Inr [first])"
    by (simp add: get_project_version_def get_project_version_try_def)
next
  assume "\<not> has_version_field content"
  then have "search_version content = None"
    by (simp add: search_version_None_iff)
  then show "get_project_version (Inr (Inr content # others)) = Inr ''0.1.0''"
    by (simp add: get_project_version_Inr)
qed

theorem get_project_version_first_only_witness:
  "\<not> has_version_field ''# an empty manifest''
   \<and> has_version_field (''version = '' @ [CHR 0x22] @ ''2.0.0'' @ [CHR 0x22])
   \<and> get_project_version
        (Inr [Inr ''# an empty manifest'',
              Inr (''version = '' @ [CHR 0x22] @ ''2.0.0'' @ [CHR 0x22])]) = Inr ''0.1.0''
   \<and> get_project_version
        (Inr [Inr (''version = '' @ [CHR 0x22] @ ''2.0.0'' @ [CHR 0x22])]) = Inr ''2.0.0''"
proof -
  let ?a = "''# an empty manifest''"
  let ?b = "''version = '' @ [CHR 0x22] @ ''2.0.0'' @ [CHR 0x22]"
  have "search_version ?a = None"
    by code_simp
  then have a: "\<not> has_version_field ?a"
    by (rule search_version_None_iff [THEN iffD1])
  have sb: "search_version ?b = Some ''2.0.0''"
    by code_simp
  then have b: "has_version_field ?b"
    using search_version_None_iff [of ?b] by simp
  have r: "get_project_version (Inr [Inr ?b]) = Inr ''2.0.0''"
    by (simp only: get_project_version_Inr sb option.case)
  from a b r get_project_version_first_only [of "Inr ?a" "[Inr ?b]" ?a]
  show ?thesis by blast
qed

subsection \<open>generate\_build\_status\<close>

text \<open>The candidate paths come first, and a check that runs gives passing or failing.\<close>

lemma generate_build_status_candidates:
  "generate_build_status True src_main_nim nim_files run_command =
     (if fst (run_command ''nim check main.nim'') = 0 then ''passing'' else ''failing'')"
  "generate_build_status False True nim_files run_command =
     (if fst (run_command ''nim check src/main.nim'') = 0 then ''passing'' else ''failing'')"
  by (simp_all add: generate_build_status_def split: prod.splits)

text \<open>When \<open>no source\<close> is reported: no candidate, and no file at all or a test file anywhere.\<close>

lemma generate_build_status_no_source:
  "generate_build_status main_nim src_main_nim nim_files run_command = ''no source'' \<longleftrightarrow>
     \<not> main_nim \<and> \<not> src_main_nim \<and> (nim_files = [] \<or> list_ex (sublist ''test'') nim_files)"
  by (cases "run_command ''nim check main.nim''"; cases "run_command ''nim check src/main.nim''";
      cases "run_command (''nim check '' @ hd nim_files)"; cases nim_files)
     (auto simp: generate_build_status_def)

text \<open>
  C1: without \<open>main.nim\<close> and \<open>src/main.nim\<close> the build checker is to check a source file
  that has no \<open>test\<close> in its path, and to report \<open>no source\<close> only when there is none. The
  code does not leave the test files out of the search: one test file anywhere in the
  tree makes it report \<open>no source\<close>, here with \<open>src/lisp.nim\<close> in the tree.
\<close>

theorem generate_build_status_test_file_hides_sources:
  "\<not> sublist ''test'' ''src/lisp.nim''
   \<and> generate_build_status False False [''src/lisp.nim'', ''tests/t_lisp.nim''] run_command
       = ''no source''"
  by (simp add: generate_build_status_def sublist_Cons_right)

subsection \<open>estimate\_coverage\_fallback\<close>

lemma estimated_coverage_le: "estimated_coverage test_blocks src_functions \<le> 95"
  by (simp add: estimated_coverage_def Let_def)

lemma estimate_coverage_fallback_le: "estimate_coverage_fallback nim_files \<le> 95"
  by (simp add: estimate_coverage_fallback_def estimated_coverage_le split: prod.splits)

lemma estimated_coverage_cases:
  "estimated_coverage test_blocks 0 = 0"
  "src_functions \<noteq> 0 \<Longrightarrow>
     estimated_coverage test_blocks src_functions
       = min (real test_blocks / real src_functions * 85) 95"
  "estimated_coverage 4 5 = 68"
  by (simp_all add: estimated_coverage_def)

text \<open>The fallback is lines 232 to 237 applied to the counters that the scan leaves.\<close>

lemma estimate_coverage_fallback_counts:
  "fold scan_file nim_files (0, 0) = (src_functions, test_blocks) \<Longrightarrow>
   estimate_coverage_fallback nim_files = estimated_coverage test_blocks src_functions"
  by (simp add: estimate_coverage_fallback_def)

text \<open>
  C6: with \<open>src_functions\<close> source functions and \<open>test_blocks\<close> test blocks counted by the
  scan, the coverage fallback returns 0.0 when no source function is found, and otherwise
  min(test\_blocks / source\_functions * 85, 95.0), so never above 95.0; 4 test blocks over
  5 source functions give 68.0, below 70, and the coverage badge is red.
\<close>

theorem coverage_fallback:
  assumes "fold scan_file nim_files (0, 0) = (src_functions, test_blocks)"
  shows "(src_functions = 0 \<longrightarrow> estimate_coverage_fallback nim_files = 0)
       \<and> (src_functions \<noteq> 0 \<longrightarrow>
            estimate_coverage_fallback nim_files
              = min (real test_blocks / real src_functions * 85) 95)
       \<and> estimate_coverage_fallback nim_files \<le> 95
       \<and> (test_blocks = 4 \<and> src_functions = 5 \<longrightarrow>
            estimate_coverage_fallback nim_files = 68
            \<and> coverage_color (estimate_coverage_fallback nim_files) = ''red'')"
proof -
  have e: "estimate_coverage_fallback nim_files = estimated_coverage test_blocks src_functions"
    using assms by (rule estimate_coverage_fallback_counts)
  show ?thesis
    unfolding e
    by (simp add: estimated_coverage_cases estimated_coverage_le coverage_color_def)
qed

text \<open>
  Three trees: a source file with five declarations, a test file with four blocks and a
  helper with \<open>test\<close> in its name, which counts for neither; a tree whose only source file
  cannot be read; and a tree with two blocks for one declaration, where the cap applies.
\<close>

theorem coverage_fallback_witness:
  "fold scan_file
     [\<lparr>under_tests = False, file_name = ''lisp.nim'',
       file_text = Inr (''proc read*(s: string): Node ='' @ [CHR ''\<newline>'']
                      @ ''  discard'' @ [CHR ''\<newline>'']
                      @ ''proc eval*(n: Node): Node ='' @ [CHR ''\<newline>'']
                      @ ''func isAtom(n: Node): bool ='' @ [CHR ''\<newline>'']
                      @ ''  proc inner() = discard'' @ [CHR ''\<newline>'']
                      @ ''func show(n: Node): string ='' @ [CHR ''\<newline>''])\<rparr>,
      \<lparr>under_tests = True, file_name = ''t_lisp.nim'',
       file_text = Inr (''block:'' @ [CHR ''\<newline>''] @ ''block:'' @ [CHR ''\<newline>'']
                      @ ''block:'' @ [CHR ''\<newline>''] @ ''block:'' @ [CHR ''\<newline>'']
                      @ ''proc helper() = discard'')\<rparr>,
      \<lparr>under_tests = False, file_name = ''TestUtil.nim'',
       file_text = Inr ''proc util() = discard''\<rparr>] (0, 0) = (5, 4)
   \<and> estimate_coverage_fallback
     [\<lparr>under_tests = False, file_name = ''lisp.nim'',
       file_text = Inr (''proc read*(s: string): Node ='' @ [CHR ''\<newline>'']
                      @ ''  discard'' @ [CHR ''\<newline>'']
                      @ ''proc eval*(n: Node): Node ='' @ [CHR ''\<newline>'']
                      @ ''func isAtom(n: Node): bool ='' @ [CHR ''\<newline>'']
                      @ ''  proc inner() = discard'' @ [CHR ''\<newline>'']
                      @ ''func show(n: Node): string ='' @ [CHR ''\<newline>''])\<rparr>,
      \<lparr>under_tests = True, file_name = ''t_lisp.nim'',
       file_text = Inr (''block:'' @ [CHR ''\<newline>''] @ ''block:'' @ [CHR ''\<newline>'']
                      @ ''block:'' @ [CHR ''\<newline>''] @ ''block:'' @ [CHR ''\<newline>'']
                      @ ''proc helper() = discard'')\<rparr>,
      \<lparr>under_tests = False, file_name = ''TestUtil.nim'',
       file_text = Inr ''proc util() = discard''\<rparr>] = 68
   \<and> coverage_color (estimate_coverage_fallback
     [\<lparr>under_tests = False, file_name = ''lisp.nim'',
       file_text = Inr (''proc read*(s: string): Node ='' @ [CHR ''\<newline>'']
                      @ ''  discard'' @ [CHR ''\<newline>'']
                      @ ''proc eval*(n: Node): Node ='' @ [CHR ''\<newline>'']
                      @ ''func isAtom(n: Node): bool ='' @ [CHR ''\<newline>'']
                      @ ''  proc inner() = discard'' @ [CHR ''\<newline>'']
                      @ ''func show(n: Node): string ='' @ [CHR ''\<newline>''])\<rparr>,
      \<lparr>under_tests = True, file_name = ''t_lisp.nim'',
       file_text = Inr (''block:'' @ [CHR ''\<newline>''] @ ''block:'' @ [CHR ''\<newline>'']
                      @ ''block:'' @ [CHR ''\<newline>''] @ ''block:'' @ [CHR ''\<newline>'']
                      @ ''proc helper() = discard'')\<rparr>,
      \<lparr>under_tests = False, file_name = ''TestUtil.nim'',
       file_text = Inr ''proc util() = discard''\<rparr>]) = ''red''
   \<and> fold scan_file
     [\<lparr>under_tests = True, file_name = ''t_lisp.nim'', file_text = Inr ''block:''\<rparr>,
      \<lparr>under_tests = False, file_name = ''lisp.nim'', file_text = Inl OSError\<rparr>] (0, 0) = (0, 1)
   \<and> estimate_coverage_fallback
     [\<lparr>under_tests = True, file_name = ''t_lisp.nim'', file_text = Inr ''block:''\<rparr>,
      \<lparr>under_tests = False, file_name = ''lisp.nim'', file_text = Inl OSError\<rparr>] = 0
   \<and> fold scan_file
     [\<lparr>under_tests = False, file_name = ''lisp.nim'', file_text = Inr ''proc eval() = discard''\<rparr>,
      \<lparr>under_tests = True, file_name = ''t_lisp.nim'',
       file_text = Inr (''block:'' @ [CHR ''\<newline>''] @ ''block:'')\<rparr>] (0, 0) = (1, 2)
   \<and> estimate_coverage_fallback
     [\<lparr>under_tests = False, file_name = ''lisp.nim'', file_text = Inr ''proc eval() = discard''\<rparr>,
      \<lparr>under_tests = True, file_name = ''t_lisp.nim'',
       file_text = Inr (''block:'' @ [CHR ''\<newline>''] @ ''block:'')\<rparr>] = 95"
proof -
  let ?tree = "[\<lparr>under_tests = False, file_name = ''lisp.nim'',
       file_text = Inr (''proc read*(s: string): Node ='' @ [CHR ''\<newline>'']
                      @ ''  discard'' @ [CHR ''\<newline>'']
                      @ ''proc eval*(n: Node): Node ='' @ [CHR ''\<newline>'']
                      @ ''func isAtom(n: Node): bool ='' @ [CHR ''\<newline>'']
                      @ ''  proc inner() = discard'' @ [CHR ''\<newline>'']
                      @ ''func show(n: Node): string ='' @ [CHR ''\<newline>''])\<rparr>,
      \<lparr>under_tests = True, file_name = ''t_lisp.nim'',
       file_text = Inr (''block:'' @ [CHR ''\<newline>''] @ ''block:'' @ [CHR ''\<newline>'']
                      @ ''block:'' @ [CHR ''\<newline>''] @ ''block:'' @ [CHR ''\<newline>'']
                      @ ''proc helper() = discard'')\<rparr>,
      \<lparr>under_tests = False, file_name = ''TestUtil.nim'',
       file_text = Inr ''proc util() = discard''\<rparr>]"
  let ?none = "[\<lparr>under_tests = True, file_name = ''t_lisp.nim'', file_text = Inr ''block:''\<rparr>,
      \<lparr>under_tests = False, file_name = ''lisp.nim'', file_text = Inl OSError\<rparr>]"
  let ?cap = "[\<lparr>under_tests = False, file_name = ''lisp.nim'', file_text = Inr ''proc eval() = discard''\<rparr>,
      \<lparr>under_tests = True, file_name = ''t_lisp.nim'',
       file_text = Inr (''block:'' @ [CHR ''\<newline>''] @ ''block:'')\<rparr>]"
  have s: "fold scan_file ?tree (0, 0) = (5, 4)"
    by code_simp
  have s0: "fold scan_file ?none (0, 0) = (0, 1)"
    by code_simp
  have sc: "fold scan_file ?cap (0, 0) = (1, 2)"
    by code_simp
  have 1: "estimate_coverage_fallback ?tree = 68
      \<and> coverage_color (estimate_coverage_fallback ?tree) = ''red''"
    by (rule coverage_fallback [OF s, THEN conjunct2, THEN conjunct2, THEN conjunct2, THEN mp])
       (rule conjI; rule refl)
  have 2: "estimate_coverage_fallback ?none = 0"
    by (rule coverage_fallback [OF s0, THEN conjunct1, THEN mp]) (rule refl)
  have "estimate_coverage_fallback ?cap = min (real 2 / real 1 * 85) 95"
    by (rule coverage_fallback [OF sc, THEN conjunct2, THEN conjunct1, THEN mp]) simp
  also have "\<dots> = 95"
    by simp
  finally have 3: "estimate_coverage_fallback ?cap = 95" .
  from s s0 sc 1 2 3 show ?thesis
    by blast
qed

subsection \<open>update\_readme\<close>

lemma re_sub_match: "match_badge label s = Some r \<Longrightarrow> re_sub label repl s = repl @ re_sub label repl r"
  by (cases s) (auto simp: match_badge_def)

lemma re_sub_no_match: "match_badge label (c # cs) = None \<Longrightarrow> re_sub label repl (c # cs) = c # re_sub label repl cs"
  by simp

lemma match_badge_start: "match_badge label s = Some r \<Longrightarrow> \<exists>t. s = ''[!['' @ t"
  by (auto simp: match_badge_def prefix_def split: if_splits)

lemma plain_text_tl: "plain_text (c # t) \<Longrightarrow> plain_text t"
  by (auto simp: plain_text_def sublist_Cons_right)

lemma plain_text_no_match:
  assumes "plain_text (c # t)"
  shows "match_badge label (c # t @ rest) = None"
proof (rule ccontr)
  assume "match_badge label (c # t @ rest) \<noteq> None"
  then obtain r where "match_badge label (c # t @ rest) = Some r" by auto
  from match_badge_start [OF this] obtain u where u: "c # t @ rest = ''[!['' @ u"
    by auto
  show False
  proof (cases t)
    case Nil
    with u assms show False by (simp add: plain_text_def)
  next
    case (Cons d t')
    with u have "c # t = [] @ ''[!'' @ t'" by simp
    then have "sublist ''[!'' (c # t)"
      unfolding sublist_def by blast
    with assms show False by (simp add: plain_text_def)
  qed
qed

lemma re_sub_skip_text:
  "plain_text t \<Longrightarrow> re_sub label repl (t @ rest) = t @ re_sub label repl rest"
proof (induction t)
  case Nil
  then show ?case by simp
next
  case (Cons c t)
  from Cons.prems have "match_badge label (c # t @ rest) = None"
    by (rule plain_text_no_match)
  moreover from Cons.prems have "plain_text t"
    by (rule plain_text_tl)
  ultimately show ?case
    using Cons.IH by simp
qed

lemma no_bracket_plain_text: "CHR ''['' \<notin> set t \<Longrightarrow> plain_text t"
proof -
  assume n: "CHR ''['' \<notin> set t"
  have "\<not> sublist ''[!'' t"
  proof
    assume "sublist ''[!'' t"
    then have "set ''[!'' \<subseteq> set t" by (rule set_mono_sublist)
    with n show False by simp
  qed
  moreover have "t = [] \<or> last t \<noteq> CHR ''[''"
    using n by (metis last_in_set)
  ultimately show ?thesis by (simp add: plain_text_def)
qed

lemma close_link_other: "c \<noteq> CHR '']'' \<Longrightarrow> close_link (c # s) = None"
  by (cases s) (simp_all add: close_link_def)

lemma lazy_link_skip:
  "CHR '']'' \<notin> set u \<Longrightarrow> CHR ''\<newline>'' \<notin> set u \<Longrightarrow> lazy_link (u @ s) = lazy_link s"
proof (induction u)
  case Nil
  show ?case by simp
next
  case (Cons c u)
  then have "c \<noteq> CHR '']''" "c \<noteq> CHR ''\<newline>''" "lazy_link (u @ s) = lazy_link s"
    by auto
  then show ?case
    by (simp add: close_link_other)
qed

lemma lazy_link_close:
  "CHR '')'' \<notin> set a \<Longrightarrow> lazy_link ('')]('' @ a @ '')'' @ rest) = Some rest"
  by (simp add: close_link_other) (simp add: close_link_def dropWhile_until)

lemma match_at_prefix:
  "(if prefix p (p @ q) then lazy_link (drop (length p) (p @ q)) else None) = lazy_link q"
  by simp

lemma match_badge_append: "match_badge l ((''[!['' @ l @ '']'') @ q) = lazy_link q"
  unfolding match_badge_def by (rule match_at_prefix)

lemma match_badge_link:
  assumes "CHR '']'' \<notin> set u" "CHR ''\<newline>'' \<notin> set u" "CHR '')'' \<notin> set a"
  shows "match_badge l (render_piece (Badge l u a) @ rest) = Some rest"
proof -
  have "render_piece (Badge l u a) @ rest
          = (''[!['' @ l @ '']'') @ (''('' @ u) @ '')]('' @ a @ '')'' @ rest"
    by simp
  moreover have "lazy_link ((''('' @ u) @ '')]('' @ a @ '')'' @ rest)
          = lazy_link ('')]('' @ a @ '')'' @ rest)"
    by (rule lazy_link_skip) (use assms in simp_all)
  ultimately show ?thesis
    by (simp only: match_badge_append lazy_link_close [OF assms(3)])
qed

lemma label_prefix_eq:
  "CHR '']'' \<notin> set a \<Longrightarrow> CHR '']'' \<notin> set b \<Longrightarrow> prefix (a @ CHR '']'' # x) (b @ CHR '']'' # y) \<Longrightarrow> a = b"
proof (induction a arbitrary: b)
  case Nil
  then show ?case by (cases b) auto
next
  case (Cons c a)
  then show ?case by (cases b) auto
qed

lemma foreign_no_match:
  assumes "l \<noteq> label" "CHR '']'' \<notin> set l" "CHR '']'' \<notin> set label"
  shows "match_badge label (''[!['' @ l @ '']'' @ s) = None"
proof -
  have "\<not> prefix (''[!['' @ label @ '']'') (''[!['' @ l @ '']'' @ s)"
  proof
    assume "prefix (''[!['' @ label @ '']'') (''[!['' @ l @ '']'' @ s)"
    then have "prefix (label @ CHR '']'' # []) (l @ CHR '']'' # s)" by simp
    from label_prefix_eq [OF assms(3) assms(2) this] assms(1) show False by simp
  qed
  then show ?thesis by (simp add: match_badge_def)
qed

lemma inner_no_match:
  assumes "CHR ''['' \<notin> set l"
  shows "match_badge label (CHR ''['' # l @ CHR '']'' # s) = None"
proof (rule ccontr)
  assume "match_badge label (CHR ''['' # l @ CHR '']'' # s) \<noteq> None"
  then obtain r where "match_badge label (CHR ''['' # l @ CHR '']'' # s) = Some r" by auto
  from match_badge_start [OF this] obtain t where "CHR ''['' # l @ CHR '']'' # s = ''[!['' @ t"
    by auto
  then have "l @ CHR '']'' # s = CHR ''!'' # CHR ''['' # t" by simp
  with assms show False
    by (cases l; cases "tl l") auto
qed

lemma bang_no_match: "match_badge label (CHR ''!'' # s) = None"
  by (simp add: match_badge_def)

lemma re_sub_foreign:
  assumes "l \<noteq> label" "CHR '']'' \<notin> set l" "CHR '']'' \<notin> set label" "CHR ''['' \<notin> set l"
    "CHR ''['' \<notin> set u" "CHR ''['' \<notin> set a"
  shows "re_sub label repl (render_piece (Badge l u a) @ rest)
         = render_piece (Badge l u a) @ re_sub label repl rest"
proof -
  let ?tail = "l @ '']('' @ u @ '')]('' @ a @ '')''"
  have p: "plain_text ?tail"
    using assms(4,5,6) by (intro no_bracket_plain_text) simp
  have 1: "match_badge label (CHR ''['' # CHR ''!'' # CHR ''['' # ?tail @ rest) = None"
    using foreign_no_match [OF assms(1-3), of "''('' @ u @ '')]('' @ a @ '')'' @ rest"] by simp
  have 2: "match_badge label (CHR ''!'' # CHR ''['' # ?tail @ rest) = None"
    by (rule bang_no_match)
  have 3: "match_badge label (CHR ''['' # ?tail @ rest) = None"
    using inner_no_match [OF assms(4), of label "''('' @ u @ '')]('' @ a @ '')'' @ rest"] by simp
  have "re_sub label repl (CHR ''['' # CHR ''!'' # CHR ''['' # ?tail @ rest)
        = CHR ''['' # CHR ''!'' # CHR ''['' # re_sub label repl (?tail @ rest)"
    by (simp only: re_sub_no_match [OF 1] re_sub_no_match [OF 2] re_sub_no_match [OF 3])
  also have "re_sub label repl (?tail @ rest) = ?tail @ re_sub label repl rest"
    using p by (rule re_sub_skip_text)
  finally show ?thesis by simp
qed

lemma re_sub_piece:
  assumes "CHR '']'' \<notin> set label" "wf1 label p"
  shows "re_sub label (render_piece (Badge label url ''#'')) (render_piece p @ rest)
         = render_piece (set_url label url p) @ re_sub label (render_piece (Badge label url ''#'')) rest"
proof (cases p)
  case (Text t)
  with assms show ?thesis by (simp add: re_sub_skip_text)
next
  case (Badge l u a)
  show ?thesis
  proof (cases "l = label")
    case True
    from Badge True assms(2)
    have "CHR '']'' \<notin> set u" "CHR ''\<newline>'' \<notin> set u" "CHR '')'' \<notin> set a"
      by simp_all
    then have "match_badge label (render_piece (Badge label u a) @ rest) = Some rest"
      by (rule match_badge_link)
    with Badge True have "match_badge label (render_piece p @ rest) = Some rest"
      by (simp only:)
    from re_sub_match [OF this] Badge True show ?thesis by simp
  next
    case False
    with Badge assms re_sub_foreign [of l label u a "render_piece (Badge label url ''#'')" rest]
    show ?thesis by simp
  qed
qed

lemma re_sub_render:
  assumes "CHR '']'' \<notin> set label" "list_all (wf1 label) ps"
  shows "re_sub label (render_piece (Badge label url ''#'')) (render ps)
         = render (map (set_url label url) ps)"
  using assms(2)
proof (induction ps)
  case Nil
  then show ?case by (simp add: render_def)
next
  case (Cons p ps)
  then have "wf1 label p" and "list_all (wf1 label) ps" by simp_all
  with Cons.IH re_sub_piece [OF assms(1), of p url "render ps"] show ?case
    by (simp add: render_def)
qed

lemma wf1_set_url:
  "wf1 l' p \<Longrightarrow> CHR ''['' \<notin> set url \<Longrightarrow> l \<noteq> l' \<Longrightarrow> wf1 l' (set_url l url p)"
  by (cases p) auto

lemma wf_piece_wf1: "wf_piece p \<Longrightarrow> label \<in> set categories \<Longrightarrow> wf1 label p"
  by (cases p) auto

lemma refresh_set_url:
  "set_url ''Version'' (version b) (set_url ''Tests'' (tests b)
     (set_url ''Test Coverage'' (coverage b) (set_url ''Build Status'' (build b) p))) = refresh b p"
  by (cases p) auto

lemma update_readme_literal:
  assumes "wf_badges b"
  shows "update_readme b (Some content) =
    README_written
      (re_sub ''Version'' (render_piece (Badge ''Version'' (version b) ''#''))
        (re_sub ''Tests'' (render_piece (Badge ''Tests'' (tests b) ''#''))
          (re_sub ''Test Coverage'' (render_piece (Badge ''Test Coverage'' (coverage b) ''#''))
            (re_sub ''Build Status'' (render_piece (Badge ''Build Status'' (build b) ''#'')) content))))"
proof -
  from assms have "CHR 0x5C \<notin> set (build b)" "CHR 0x5C \<notin> set (coverage b)"
      "CHR 0x5C \<notin> set (tests b)" "CHR 0x5C \<notin> set (version b)"
    by (simp_all add: wf_badges_def wf_url_def)
  then show ?thesis
    by (simp add: update_readme_def)
qed

lemma wf1_pass:
  assumes "list_all (wf1 l') ps" "CHR ''['' \<notin> set url" "l \<noteq> l'"
  shows "list_all (wf1 l') (map (set_url l url) ps)"
  using assms by (simp add: list_all_iff wf1_set_url)

lemma re_sub_plain_text: "plain_text content \<Longrightarrow> re_sub label repl content = content"
  using re_sub_skip_text [of content label repl "[]"] by simp

lemma update_readme_not_found: "update_readme b None = README_not_found"
  by (simp add: update_readme_def)

text \<open>
  C2 (amended): for each of the four badge categories the README updater replaces every
  markdown image-link of that category, not only the first, with the new badge link and
  the placeholder anchor target, and leaves all other content unchanged: in a README made
  of well-formed badge links and plain text, each link of the four categories gets the new
  URL and the target \<open>#\<close>, and the plain text and the links of other labels stay as they
  are.
\<close>

theorem update_readme_replaces_every_link:
  assumes "wf_badges b" and "list_all wf_piece ps"
  shows "update_readme b (Some (render ps)) = README_written (render (map (refresh b) ps))"
proof -
  let ?B = "''Build Status''" and ?C = "''Test Coverage''" and ?T = "''Tests''" and ?V = "''Version''"
  from assms(1) have u: "CHR ''['' \<notin> set (build b)" "CHR ''['' \<notin> set (coverage b)"
      "CHR ''['' \<notin> set (tests b)" "CHR ''['' \<notin> set (version b)"
    by (simp_all add: wf_badges_def wf_url_def)
  have wf: "list_all (wf1 l) ps" if "l \<in> set categories" for l
    using assms(2) that by (simp add: list_all_iff wf_piece_wf1)
  have cat: "?B \<in> set categories" "?C \<in> set categories" "?T \<in> set categories"
      "?V \<in> set categories"
    by (simp_all add: categories_def)
  let ?ps1 = "map (set_url ?B (build b)) ps"
  let ?ps2 = "map (set_url ?C (coverage b)) ?ps1"
  let ?ps3 = "map (set_url ?T (tests b)) ?ps2"
  let ?ps4 = "map (set_url ?V (version b)) ?ps3"
  have 1: "re_sub ?B (render_piece (Badge ?B (build b) ''#'')) (render ps) = render ?ps1"
    by (rule re_sub_render) (simp, rule wf [OF cat(1)])
  have "list_all (wf1 ?C) ?ps1"
    by (rule wf1_pass [OF wf [OF cat(2)] u(1)]) simp
  then have 2: "re_sub ?C (render_piece (Badge ?C (coverage b) ''#'')) (render ?ps1) = render ?ps2"
    by (intro re_sub_render) simp_all
  have "list_all (wf1 ?T) ?ps1"
    by (rule wf1_pass [OF wf [OF cat(3)] u(1)]) simp
  then have "list_all (wf1 ?T) ?ps2"
    by (rule wf1_pass [OF _ u(2)]) simp
  then have 3: "re_sub ?T (render_piece (Badge ?T (tests b) ''#'')) (render ?ps2) = render ?ps3"
    by (intro re_sub_render) simp_all
  have "list_all (wf1 ?V) ?ps1"
    by (rule wf1_pass [OF wf [OF cat(4)] u(1)]) simp
  then have "list_all (wf1 ?V) ?ps2"
    by (rule wf1_pass [OF _ u(2)]) simp
  then have "list_all (wf1 ?V) ?ps3"
    by (rule wf1_pass [OF _ u(3)]) simp
  then have 4: "re_sub ?V (render_piece (Badge ?V (version b) ''#'')) (render ?ps3) = render ?ps4"
    by (intro re_sub_render) simp_all
  have "?ps4 = map (refresh b) ps"
    by (simp only: map_map o_def refresh_set_url)
  with 1 2 3 4 show ?thesis
    by (simp only: update_readme_literal [OF assms(1)])
qed

theorem update_readme_replaces_every_link_witness:
  "wf_badges \<lparr>version = ''https://img.shields.io/badge/version-v0.1.0-blue.svg'',
              build = ''https://img.shields.io/badge/build-passing-brightgreen.svg'',
              tests = ''https://img.shields.io/badge/tests-3%20tests-brightgreen.svg'',
              coverage = ''https://img.shields.io/badge/coverage-68.0%25-red.svg''\<rparr>
   \<and> list_all wf_piece
        [Text ''# NimLisp '', Badge ''Tests'' ''old-url'' ''#'', Text '' and '',
         Badge ''Tests'' ''other-url'' ''ci.html'', Text '' see [docs](docs.md) '',
         Badge ''License'' ''mit.svg'' ''LICENSE'', Badge ''Version'' ''v0'' ''#'']
   \<and> update_readme
        \<lparr>version = ''https://img.shields.io/badge/version-v0.1.0-blue.svg'',
         build = ''https://img.shields.io/badge/build-passing-brightgreen.svg'',
         tests = ''https://img.shields.io/badge/tests-3%20tests-brightgreen.svg'',
         coverage = ''https://img.shields.io/badge/coverage-68.0%25-red.svg''\<rparr>
        (Some (''# NimLisp [![Tests](old-url)](#) and [![Tests](other-url)](ci.html)''
               @ '' see [docs](docs.md) [![License](mit.svg)](LICENSE)[![Version](v0)](#)''))
      = README_written
         (''# NimLisp [![Tests](https://img.shields.io/badge/tests-3%20tests-brightgreen.svg)](#)''
          @ '' and [![Tests](https://img.shields.io/badge/tests-3%20tests-brightgreen.svg)](#)''
          @ '' see [docs](docs.md) [![License](mit.svg)](LICENSE)''
          @ ''[![Version](https://img.shields.io/badge/version-v0.1.0-blue.svg)](#)'')"
proof -
  let ?b = "\<lparr>version = ''https://img.shields.io/badge/version-v0.1.0-blue.svg'',
              build = ''https://img.shields.io/badge/build-passing-brightgreen.svg'',
              tests = ''https://img.shields.io/badge/tests-3%20tests-brightgreen.svg'',
              coverage = ''https://img.shields.io/badge/coverage-68.0%25-red.svg''\<rparr>"
  let ?ps = "[Text ''# NimLisp '', Badge ''Tests'' ''old-url'' ''#'', Text '' and '',
         Badge ''Tests'' ''other-url'' ''ci.html'', Text '' see [docs](docs.md) '',
         Badge ''License'' ''mit.svg'' ''LICENSE'', Badge ''Version'' ''v0'' ''#'']"
  have b: "wf_badges ?b"
    by code_simp
  have p: "list_all wf_piece ?ps"
    by code_simp
  from update_readme_replaces_every_link [OF b p] b p show ?thesis
    by (simp add: render_def)
qed

text \<open>
  C2 (as stated): only the first image-link of a category is replaced. With two Tests
  links in the README the code replaces both.
\<close>

theorem update_readme_replaces_second_link:
  "update_readme \<lparr>version = ''v'', build = ''b'', tests = ''new-url'', coverage = ''c''\<rparr>
     (Some ''[![Tests](old-url)](#) [![Tests](other-url)](#)'')
     = README_written ''[![Tests](new-url)](#) [![Tests](new-url)](#)''
   \<and> update_readme \<lparr>version = ''v'', build = ''b'', tests = ''new-url'', coverage = ''c''\<rparr>
     (Some ''[![Tests](old-url)](#) [![Tests](other-url)](#)'')
     \<noteq> README_written ''[![Tests](new-url)](#) [![Tests](other-url)](#)''"
  by code_simp

end
